theory Spec2Isabelle
  imports Main "HOL-Library.Word"
begin

unbundle bit_operations_syntax

section \<open>Constants of \<^verbatim>\<open>main.py\<close>\<close>

text \<open>
  The module-level constants, as the source writes them: characteristic ids are Python
  strings, the button masks are Python integers.
\<close>

definition CAMERA_ADDR :: string where
  "CAMERA_ADDR = ''DC:FE:23:4A:E0:36''"

definition PAIRING_HANDLE :: string where
  "PAIRING_HANDLE = ''00050002-0000-1000-0000-d8492fffa821''"

definition SHUTTER_HANDLE :: string where
  "SHUTTER_HANDLE = ''00050003-0000-1000-0000-d8492fffa821''"

definition STATUS_CHAR_HANDLE :: string where
  "STATUS_CHAR_HANDLE = ''00050004-0000-1000-0000-d8492fffa821''"


definition MANUFACTURER_NAME :: string where
  "MANUFACTURER_NAME = ''00002a29-0000-1000-8000-00805f9b34fb''"

definition MODEL_NUMBER :: string where
  "MODEL_NUMBER = ''00002a24-0000-1000-8000-00805f9b34fb''"

definition SERIAL_NUMBER :: string where
  "SERIAL_NUMBER = ''00002a26-0000-1000-8000-00805f9b34fb''"

definition SOFTWARE_REVISION :: string where
  "SOFTWARE_REVISION = ''00002a28-0000-1000-8000-00805f9b34fb''"

definition BUTTON_RELEASE :: int where
  "BUTTON_RELEASE = 0x80"

definition IMMEDIATE :: int where
  "IMMEDIATE = 0x0C"

definition DEVICE_NAME :: string where
  "DEVICE_NAME = ''LINUX''"

section \<open>Python values: exceptions, byte strings, formatting\<close>

text \<open>
  The exceptions that can reach the program: the transport's \<^verbatim>\<open>BleakError\<close>, a timeout,
  the cancellation of an awaited call, \<^verbatim>\<open>ValueError\<close> of \<^verbatim>\<open>bytearray\<close>, the end of
  standard input, an operating-system error.
\<close>

datatype error = BleakError | TimeoutError | CancelledError | ValueError | EOFError | OSError

text \<open>
  What a coroutine raises: an exception, possibly with a context. \<open>Chained e c\<close> is
  the exception \<open>e\<close> raised while \<open>c\<close> was being handled (\<open>c\<close> is its
  \<^verbatim>\<open>__context__\<close>), as happens when the exit of an \<^verbatim>\<open>async with\<close> raises during the
  unwinding of its body.
\<close>

datatype raised = Raised error | Chained error raised

type_synonym byte = "8 word"

text \<open>
  \<^verbatim>\<open>bytearray(iterable_of_ints)\<close>: every element must lie in \<open>range(256)\<close>, otherwise
  \<^verbatim>\<open>ValueError\<close>.
\<close>

definition bytearray :: "int list \<Rightarrow> error + byte list" where
  "bytearray xs =
     (if list_all (\<lambda>x. 0 \<le> x \<and> x < 256) xs then Inr (map word_of_int xs)
      else Inl ValueError)"

text \<open>
  A Python \<^verbatim>\<open>str\<close> is a sequence of code points; a \<^typ>\<open>char\<close> stands for the code
  point of its value, which covers every string this program builds (code points below
  256). \<^verbatim>\<open>ord\<close> and \<^verbatim>\<open>chr\<close> on that range:
\<close>

definition ord :: "char \<Rightarrow> int" where
  "ord c = of_char c"

definition chr :: "byte \<Rightarrow> char" where
  "chr b = char_of (unat b)"

definition bytes_to_str :: "byte list \<Rightarrow> string" where
  "bytes_to_str data = (if data \<noteq> [] then concat (map (\<lambda>b. [chr b]) data) else ''N/A'')"

text \<open>Digits: \<^verbatim>\<open>%d\<close>, \<^verbatim>\<open>%0kd\<close>, the format \<^verbatim>\<open>:x\<close> and \<^verbatim>\<open>bytes.hex()\<close>.\<close>

definition digit_char :: "nat \<Rightarrow> char" where
  "digit_char d = (if d < 10 then char_of (48 + d) else char_of (87 + d))"

fun dec :: "nat \<Rightarrow> string" where
  "dec n = (if n < 10 then [digit_char n] else dec (n div 10) @ [digit_char (n mod 10)])"

fun hex_nat :: "nat \<Rightarrow> string" where
  "hex_nat n = (if n < 16 then [digit_char n] else hex_nat (n div 16) @ [digit_char (n mod 16)])"

definition zero_pad :: "nat \<Rightarrow> nat \<Rightarrow> string" where
  "zero_pad k n = replicate (k - length (dec n)) (CHR ''0'') @ dec n"

definition format_x :: "int \<Rightarrow> string" where
  "format_x i = (if i < 0 then CHR ''-'' # hex_nat (nat (- i)) else hex_nat (nat i))"

definition hex_byte :: "byte \<Rightarrow> string" where
  "hex_byte b = [digit_char (unat b div 16), digit_char (unat b mod 16)]"

definition hex :: "byte list \<Rightarrow> string" where
  "hex data = concat (map hex_byte data)"

text \<open>
  \<^verbatim>\<open>datetime.datetime.now()\<close> is a naive local time; \<^verbatim>\<open>isoformat(timespec="milliseconds")\<close>
  prints it as \<^verbatim>\<open>YYYY-MM-DDTHH:MM:SS.mmm\<close>, the microseconds truncated to milliseconds.
\<close>

record datetime =
  year :: nat
  month :: nat
  day :: nat
  hour :: nat
  minute :: nat
  second :: nat
  microsecond :: nat

definition isoformat_milliseconds :: "datetime \<Rightarrow> string" where
  "isoformat_milliseconds t =
     zero_pad 4 (year t) @ ''-'' @ zero_pad 2 (month t) @ ''-'' @ zero_pad 2 (day t) @ ''T'' @
     zero_pad 2 (hour t) @ '':'' @ zero_pad 2 (minute t) @ '':'' @ zero_pad 2 (second t) @ ''.'' @
     zero_pad 3 (microsecond t div 1000)"

section \<open>The outside world: transport, clock, console\<close>

text \<open>
  Every call that leaves the program is an action; a trace lists actions in the order the
  program made them, each with its outcome (\<open>None\<close>: it returned, \<open>Some e\<close>: it
  raised \<open>e\<close>). \<open>Connect\<close> and \<open>Disconnect\<close> are what entering and leaving
  \<^verbatim>\<open>async with BleakClient(addr)\<close> call on the transport; \<open>Sleep\<close> carries the delay
  in milliseconds (\<^verbatim>\<open>asyncio.sleep(0.3)\<close> is \<open>Sleep 300\<close>).
\<close>

datatype action =
    Connect string
  | Disconnect
  | ReadGattChar string
  | WriteGattChar string "byte list" bool
  | StartNotify string string
  | Sleep nat
  | Print string
  | Input string

type_synonym trace = "(action \<times> error option) list"

text \<open>
  The world decides, from what has happened so far, whether a call raises, what the
  \<^verbatim>\<open>is_connected\<close> property reads, what a characteristic read returns, and what the
  clock shows.
\<close>

record world =
  fails :: "trace \<Rightarrow> action \<Rightarrow> error option"
  is_connected :: "trace \<Rightarrow> bool"
  read_value :: "trace \<Rightarrow> string \<Rightarrow> byte list"
  now :: "trace \<Rightarrow> datetime"

text \<open>
  A coroutine takes the history (what happened before it was called) and gives its
  result, a value or the exception it raised, with the actions it made itself.
\<close>

type_synonym 'a io = "trace \<Rightarrow> (raised + 'a) \<times> trace"

definition io_return :: "'a \<Rightarrow> 'a io" where
  "io_return x tr = (Inr x, [])"

definition io_raise :: "error \<Rightarrow> 'a io" where
  "io_raise e tr = (Inl (Raised e), [])"

definition io_bind :: "'a io \<Rightarrow> ('a \<Rightarrow> 'b io) \<Rightarrow> 'b io" where
  "io_bind m f tr =
     (case m tr of
        (Inl e, evs) \<Rightarrow> (Inl e, evs)
      | (Inr x, evs) \<Rightarrow> (case f x (tr @ evs) of (r, evs') \<Rightarrow> (r, evs @ evs')))"

text \<open>A block of statements: each runs after the one before it returned.\<close>

fun io_block :: "unit io list \<Rightarrow> unit io" where
  "io_block [] = io_return ()"
| "io_block (s # ss) = io_bind s (\<lambda>_. io_block ss)"

definition io_of :: "error + 'a \<Rightarrow> 'a io" where
  "io_of r = (case r of Inl e \<Rightarrow> io_raise e | Inr x \<Rightarrow> io_return x)"

definition perform :: "world \<Rightarrow> action \<Rightarrow> unit io" where
  "perform w a tr =
     (case fails w tr a of
        None \<Rightarrow> (Inr (), [(a, None)])
      | Some e \<Rightarrow> (Inl (Raised e), [(a, Some e)]))"

text \<open>
  \<^verbatim>\<open>print\<close> writes a line to standard output; it can raise as any other call (a
  closed or broken stream), so it asks the world too.
\<close>

definition print :: "world \<Rightarrow> string \<Rightarrow> unit io" where
  "print w s = perform w (Print s)"

definition sleep :: "world \<Rightarrow> nat \<Rightarrow> unit io" where
  "sleep w ms = perform w (Sleep ms)"

definition write_gatt_char :: "world \<Rightarrow> string \<Rightarrow> byte list \<Rightarrow> bool \<Rightarrow> unit io" where
  "write_gatt_char w h payload response = perform w (WriteGattChar h payload response)"

definition read_gatt_char :: "world \<Rightarrow> string \<Rightarrow> byte list io" where
  "read_gatt_char w h tr =
     (case fails w tr (ReadGattChar h) of
        None \<Rightarrow> (Inr (read_value w tr h), [(ReadGattChar h, None)])
      | Some e \<Rightarrow> (Inl (Raised e), [(ReadGattChar h, Some e)]))"

definition start_notify :: "world \<Rightarrow> string \<Rightarrow> string \<Rightarrow> unit io" where
  "start_notify w h callback = perform w (StartNotify h callback)"

section \<open>Utilities and handlers\<close>

definition timestamp :: "world \<Rightarrow> string io" where
  "timestamp w tr = (Inr (isoformat_milliseconds (now w tr)), [])"

record BleakGATTCharacteristic =
  handle :: int
  uuid :: string

definition status_handler :: "world \<Rightarrow> BleakGATTCharacteristic \<Rightarrow> byte list \<Rightarrow> unit io" where
  "status_handler w sender data =
     io_bind (timestamp w) (\<lambda>ts.
       print w (ts @ ''  [NOTIFY] sender=0x'' @ format_x (handle sender) @
              ''  payload='' @ hex data))"

section \<open>BLE operations\<close>

definition read_device_info :: "world \<Rightarrow> unit io" where
  "read_device_info w =
     io_bind (read_gatt_char w MANUFACTURER_NAME) (\<lambda>manufacturer.
     io_bind (read_gatt_char w MODEL_NUMBER) (\<lambda>model.
     io_bind (read_gatt_char w SERIAL_NUMBER) (\<lambda>serial.
     io_bind (read_gatt_char w SOFTWARE_REVISION) (\<lambda>software.
     io_block
       [print w (CHR 0x0A # ''--- Device Info ---''),
        print w (''Manufacturer: '' @ bytes_to_str manufacturer),
        print w (''Model:        '' @ bytes_to_str model),
        print w (''Serial:       '' @ bytes_to_str serial),
        print w (''Software:     '' @ bytes_to_str software),
        print w (''-------------------'' @ [CHR 0x0A])]))))"

definition handshake :: "world \<Rightarrow> unit io" where
  "handshake w =
     io_bind (io_of (bytearray [0x03])) (\<lambda>p1.
     io_bind (io_of (bytearray (map ord DEVICE_NAME))) (\<lambda>p2.
     io_block
       [write_gatt_char w PAIRING_HANDLE (p1 @ p2) True,
        io_bind (timestamp w) (\<lambda>ts. print w (ts @ '' Handshake complete.''))]))"


definition trigger_shutter :: "world \<Rightarrow> unit io" where
  "trigger_shutter w =
     io_block
       [io_bind (timestamp w) (\<lambda>ts. print w (ts @ '' --- Triggering Shutter Sequence ---'')),
        io_bind (io_of (bytearray [IMMEDIATE])) (\<lambda>p.
          write_gatt_char w SHUTTER_HANDLE p False),
        sleep w 300,
        io_bind (io_of (bytearray [BUTTON_RELEASE OR IMMEDIATE])) (\<lambda>p.
          write_gatt_char w SHUTTER_HANDLE p False),
        io_bind (io_of (bytearray [0x00])) (\<lambda>p.
          write_gatt_char w SHUTTER_HANDLE p False),
        io_bind (timestamp w) (\<lambda>ts. print w (ts @ '' Shutter sequence complete.''))]"

section \<open>The session: one connection per shot\<close>

text \<open>
  \<^verbatim>\<open>async with BleakClient(addr) as client: body\<close>. Entering the scope connects; when
  that raises, the body does not run and nothing is left to release. Once entered, the
  scope's exit disconnects, whether the body returned (also by an early \<^verbatim>\<open>return\<close>) or
  raised; the exit does not swallow the body's exception, and an exception of the exit
  itself is raised with the body's one as its context.
\<close>

definition async_with_BleakClient :: "world \<Rightarrow> string \<Rightarrow> unit io \<Rightarrow> unit io" where
  "async_with_BleakClient w addr body tr =
     (case fails w tr (Connect addr) of
        Some e \<Rightarrow> (Inl (Raised e), [(Connect addr, Some e)])
      | None \<Rightarrow>
          (case body (tr @ [(Connect addr, None)]) of
             (r, evs) \<Rightarrow>
               (let entered = (Connect addr, None) # evs in
                case fails w (tr @ entered) Disconnect of
                  None \<Rightarrow> (r, entered @ [(Disconnect, None)])
                | Some e \<Rightarrow>
                    (case r of
                       Inr _ \<Rightarrow> (Inl (Raised e), entered @ [(Disconnect, Some e)])
                     | Inl c \<Rightarrow> (Inl (Chained e c), entered @ [(Disconnect, Some e)])))))"

definition take_photo :: "world \<Rightarrow> unit io" where
  "take_photo w =
     async_with_BleakClient w CAMERA_ADDR
       (\<lambda>tr.
          if \<not> is_connected w tr then print w ''Failed to connect to camera.'' tr
          else
            io_block
              [io_bind (timestamp w) (\<lambda>ts. print w (ts @ '' Connected to camera!'')),
               handshake w,
               trigger_shutter w,
               io_bind (timestamp w) (\<lambda>ts.
                 print w (ts @ '' Disconnecting. Physical buttons unlocked.''))] tr)"

section \<open>The interactive loop\<close>

text \<open>
  \<^verbatim>\<open>str.strip()\<close> and \<^verbatim>\<open>str.lower()\<close> on code points below 256: the white space of
  \<^verbatim>\<open>str.isspace\<close> there, and the upper-case letters of ASCII and Latin-1.
\<close>

definition isspace :: "char \<Rightarrow> bool" where
  "isspace c =
     (let n = (of_char c :: nat) in
      (9 \<le> n \<and> n \<le> 13) \<or> (28 \<le> n \<and> n \<le> 32) \<or> n = 133 \<or> n = 160)"

definition str_strip :: "string \<Rightarrow> string" where
  "str_strip s = rev (dropWhile isspace (rev (dropWhile isspace s)))"

definition lower_char :: "char \<Rightarrow> char" where
  "lower_char c =
     (let n = (of_char c :: nat) in
      if (65 \<le> n \<and> n \<le> 90) \<or> (192 \<le> n \<and> n \<le> 222 \<and> n \<noteq> 215) then char_of (n + 32)
      else c)"

definition str_lower :: "string \<Rightarrow> string" where
  "str_lower s = map lower_char s"

text \<open>
  Standard input is the list of the lines the user types; \<^verbatim>\<open>input\<close> raises
  \<^verbatim>\<open>EOFError\<close> when none is left, so the loop ends on every input. The loop awaits each
  \<^verbatim>\<open>take_photo\<close> before it reads the next line. An exception of \<^verbatim>\<open>take_photo\<close> is not
  caught: it ends the loop and the program.
\<close>

fun main_loop :: "world \<Rightarrow> string list \<Rightarrow> unit io" where
  "main_loop w [] tr = (Inl (Raised EOFError), [(Input ''>> '', Some EOFError)])"
| "main_loop w (line # rest) tr =
     (let ev = (Input ''>> '', None);
          user_input = str_lower (str_strip line)
      in if user_input = ''q'' then (Inr (), [ev])
         else (case take_photo w (tr @ [ev]) of
                 (Inl e, evs) \<Rightarrow> (Inl e, ev # evs)
               | (Inr _, evs) \<Rightarrow>
                   (case main_loop w rest (tr @ ev # evs) of
                      (r, evs') \<Rightarrow> (r, ev # evs @ evs'))))"

definition main :: "world \<Rightarrow> string list \<Rightarrow> unit io" where
  "main w stdin =
     io_block
       [print w ''Press ENTER to take a photo, or type 'q' to quit.'',
        main_loop w stdin]"

section \<open>Vocabulary of the properties\<close>

text \<open>
  The writes of the protocol as actions: the handshake, and the three phases of the
  shutter sequence (half-press, full press, release).
\<close>

definition handshake_write :: action where
  "handshake_write = WriteGattChar PAIRING_HANDLE [0x03, 0x4C, 0x49, 0x4E, 0x55, 0x58] True"

definition focus_write :: action where
  "focus_write = WriteGattChar SHUTTER_HANDLE [0x0C] False"

definition press_write :: action where
  "press_write = WriteGattChar SHUTTER_HANDLE [0x8C] False"

definition release_write :: action where
  "release_write = WriteGattChar SHUTTER_HANDLE [0x00] False"

text \<open>
  The statements of \<^verbatim>\<open>take_photo\<close> after the connection check, named so that proofs
  can treat them as a unit.
\<close>

definition session :: "world \<Rightarrow> unit io" where
  "session w =
     io_block
       [io_bind (timestamp w) (\<lambda>ts. print w (ts @ '' Connected to camera!'')),
        handshake w,
        trigger_shutter w,
        io_bind (timestamp w) (\<lambda>ts.
          print w (ts @ '' Disconnecting. Physical buttons unlocked.''))]"

text \<open>
  The actions of a trace, the writes to one characteristic, the connects and the
  disconnects.
\<close>

definition actions :: "trace \<Rightarrow> action list" where
  "actions tr = map fst tr"

fun is_write_to :: "string \<Rightarrow> action \<Rightarrow> bool" where
  "is_write_to h (WriteGattChar h' p r) = (h' = h)"
| "is_write_to h _ = False"

fun is_print :: "action \<Rightarrow> bool" where
  "is_print (Print s) = True"
| "is_print _ = False"

definition writes_to :: "string \<Rightarrow> trace \<Rightarrow> action list" where
  "writes_to h tr = filter (is_write_to h) (actions tr)"

fun is_connect :: "action \<Rightarrow> bool" where
  "is_connect (Connect addr) = True"
| "is_connect _ = False"

definition connects :: "trace \<Rightarrow> nat" where
  "connects tr = length (filter is_connect (actions tr))"

definition disconnects :: "trace \<Rightarrow> nat" where
  "disconnects tr = length (filter (\<lambda>a. a = Disconnect) (actions tr))"

text \<open>
  \<open>shutter_guarded ok tr\<close>: every write to the shutter characteristic in \<open>tr\<close> comes
  after a handshake write that returned (\<open>ok\<close>: one has returned already).
  \<open>unlocked ok tr\<close> is the flag after \<open>tr\<close>.
\<close>

fun unlocked :: "bool \<Rightarrow> trace \<Rightarrow> bool" where
  "unlocked ok [] = ok"
| "unlocked ok ((a, out) # evs) = unlocked (ok \<or> (a = handshake_write \<and> out = None)) evs"

fun shutter_guarded :: "bool \<Rightarrow> trace \<Rightarrow> bool" where
  "shutter_guarded ok [] = True"
| "shutter_guarded ok ((a, out) # evs) =
     ((if is_write_to SHUTTER_HANDLE a then ok else True) \<and>
      shutter_guarded (ok \<or> (a = handshake_write \<and> out = None)) evs)"

text \<open>
  \<open>serial_sessions opened tr\<close>: in \<open>tr\<close> no connection is opened while one is open,
  and a disconnect closes an open one (\<open>opened\<close>: one is open at the start).
  \<open>connection_open opened tr\<close> is the flag after \<open>tr\<close>.
\<close>

fun connection_open :: "bool \<Rightarrow> trace \<Rightarrow> bool" where
  "connection_open opened [] = opened"
| "connection_open opened ((Connect addr, out) # evs) = connection_open (out = None) evs"
| "connection_open opened ((Disconnect, out) # evs) = connection_open False evs"
| "connection_open opened (_ # evs) = connection_open opened evs"

fun serial_sessions :: "bool \<Rightarrow> trace \<Rightarrow> bool" where
  "serial_sessions opened [] = True"
| "serial_sessions opened ((Connect addr, out) # evs) =
     (\<not> opened \<and> serial_sessions (out = None) evs)"
| "serial_sessions opened ((Disconnect, out) # evs) = (opened \<and> serial_sessions False evs)"
| "serial_sessions opened (_ # evs) = serial_sessions opened evs"

text \<open>
  The decoder of \<^verbatim>\<open>bytes.hex()\<close> output (two hexadecimal digits a byte), to state that
  the printed payload determines the bytes.
\<close>

definition digit_val :: "char \<Rightarrow> nat option" where
  "digit_val c =
     (let n = (of_char c :: nat) in
      if 48 \<le> n \<and> n \<le> 57 then Some (n - 48)
      else if 97 \<le> n \<and> n \<le> 102 then Some (n - 87)
      else None)"

fun bytes_fromhex :: "string \<Rightarrow> byte list option" where
  "bytes_fromhex [] = Some []"
| "bytes_fromhex [c] = None"
| "bytes_fromhex (c # d # cs) =
     (case (digit_val c, digit_val d, bytes_fromhex cs) of
        (Some h, Some l, Some bs) \<Rightarrow> Some (of_nat (16 * h + l) # bs)
      | _ \<Rightarrow> None)"

text \<open>
  The decoders of the two number formats: \<open>digits_value b acc s\<close> reads \<open>s\<close> as
  digits in base \<open>b\<close> after the value \<open>acc\<close>; \<open>nat_of_dec\<close> reads a decimal field
  (leading zeros allowed), \<open>int_of_hex\<close> a hexadecimal number with an optional sign, as
  \<^verbatim>\<open>int(s, 16)\<close> does for lower-case digits.
\<close>

fun digits_value :: "nat \<Rightarrow> nat \<Rightarrow> string \<Rightarrow> nat option" where
  "digits_value b acc [] = Some acc"
| "digits_value b acc (c # cs) =
     (case digit_val c of
        None \<Rightarrow> None
      | Some d \<Rightarrow> if d < b then digits_value b (b * acc + d) cs else None)"

definition nat_of_dec :: "string \<Rightarrow> nat option" where
  "nat_of_dec s = (if s = [] then None else digits_value 10 0 s)"

definition int_of_hex :: "string \<Rightarrow> int option" where
  "int_of_hex s =
     (case s of
        [] \<Rightarrow> None
      | c # cs \<Rightarrow>
          if c = CHR ''-''
          then (if cs = [] then None else map_option (\<lambda>n. - int n) (digits_value 16 0 cs))
          else map_option int (digits_value 16 0 s))"

text \<open>The ranges of the fields of a Python \<^verbatim>\<open>datetime\<close>.\<close>

definition valid_datetime :: "datetime \<Rightarrow> bool" where
  "valid_datetime t =
     (1 \<le> year t \<and> year t \<le> 9999 \<and> 1 \<le> month t \<and> month t \<le> 12 \<and>
      1 \<le> day t \<and> day t \<le> 31 \<and> hour t < 24 \<and> minute t < 60 \<and> second t < 60 \<and>
      microsecond t < 1000000)"

text \<open>
  Worlds for the examples: one where nothing fails, and variants where a single call
  raises or the connection check reads false.
\<close>

definition w_ok :: world where
  "w_ok =
     \<lparr>fails = (\<lambda>tr a. None), is_connected = (\<lambda>tr. True), read_value = (\<lambda>tr h. []),
      now = (\<lambda>tr. \<lparr>year = 2024, month = 5, day = 17, hour = 9, minute = 30, second = 0,
                     microsecond = 123456\<rparr>)\<rparr>"

definition w_focus_fails :: world where
  "w_focus_fails =
     w_ok\<lparr>fails := (\<lambda>tr a. if a = focus_write then Some BleakError else None)\<rparr>"

definition w_press_fails :: world where
  "w_press_fails =
     w_ok\<lparr>fails := (\<lambda>tr a. if a = press_write then Some TimeoutError else None)\<rparr>"

definition w_handshake_fails :: world where
  "w_handshake_fails =
     w_ok\<lparr>fails := (\<lambda>tr a. if a = handshake_write then Some BleakError else None)\<rparr>"

definition w_not_connected :: world where
  "w_not_connected = w_ok\<lparr>is_connected := (\<lambda>tr. False)\<rparr>"

definition w_log_fails :: world where
  "w_log_fails =
     w_ok\<lparr>fails := (\<lambda>tr a. if is_print a then Some OSError else None)\<rparr>"

text \<open>
  \<open>busy_history\<close>: the history of a caller that invokes \<^verbatim>\<open>take_photo\<close> while a session is
  active, its connection open and not yet released.
\<close>

definition busy_history :: trace where
  "busy_history = [(Connect CAMERA_ADDR, None)]"

section \<open>The coroutines, step by step\<close>

declare dec.simps [simp del] hex_nat.simps [simp del]

lemmas io_defs = io_return_def io_raise_def io_bind_def io_of_def perform_def print_def
  sleep_def write_gatt_char_def start_notify_def timestamp_def

lemmas write_defs = handshake_write_def focus_write_def press_write_def release_write_def

lemma bytearray_focus: "bytearray [IMMEDIATE] = Inr [0x0C]"
  by (simp add: bytearray_def IMMEDIATE_def)

lemma bytearray_press: "bytearray [BUTTON_RELEASE OR IMMEDIATE] = Inr [0x8C]"
  by (simp add: bytearray_def BUTTON_RELEASE_def IMMEDIATE_def)

lemma bytearray_release: "bytearray [0x00] = Inr [0x00]"
  by (simp add: bytearray_def)

lemma bytearray_version: "bytearray [0x03] = Inr [0x03]"
  by (simp add: bytearray_def)

lemma bytearray_name: "bytearray (map ord DEVICE_NAME) = Inr [0x4C, 0x49, 0x4E, 0x55, 0x58]"
  by (simp add: bytearray_def DEVICE_NAME_def ord_def)

lemma bytearray_cccd: "bytearray [0x02, 0x00] = Inr [0x02, 0x00]"
  by (simp add: bytearray_def)

lemmas payloads = bytearray_focus bytearray_press bytearray_release bytearray_version
  bytearray_name bytearray_cccd

lemma digit_char_numerals:
  "digit_char 0 = CHR ''0''" "digit_char 1 = CHR ''1''" "digit_char 2 = CHR ''2''"
  "digit_char 3 = CHR ''3''" "digit_char 4 = CHR ''4''" "digit_char 5 = CHR ''5''"
  "digit_char 6 = CHR ''6''" "digit_char 7 = CHR ''7''" "digit_char 8 = CHR ''8''"
  "digit_char 9 = CHR ''9''" "digit_char 10 = CHR ''a''" "digit_char 11 = CHR ''b''"
  "digit_char 12 = CHR ''c''" "digit_char 13 = CHR ''d''" "digit_char 14 = CHR ''e''"
  "digit_char 15 = CHR ''f''" "digit_char (Suc 0) = CHR ''1''"
  by (simp_all add: digit_char_def char_of_eq_iff)

lemmas format_defs = isoformat_milliseconds_def zero_pad_def digit_char_numerals dec.simps
  hex_nat.simps

lemma handles_distinct:
  "SHUTTER_HANDLE \<noteq> PAIRING_HANDLE" "PAIRING_HANDLE \<noteq> SHUTTER_HANDLE"
  by (simp_all add: SHUTTER_HANDLE_def PAIRING_HANDLE_def)

lemma trigger_shutter_unfold:
  "trigger_shutter w tr =
     (let p1 = Print (isoformat_milliseconds (now w tr) @
                 '' --- Triggering Shutter Sequence ---'');
          t0 = [(p1, None)];
          t1 = t0 @ [(focus_write, None)];
          t2 = t1 @ [(Sleep 300, None)];
          t3 = t2 @ [(press_write, None)];
          t4 = t3 @ [(release_write, None)];
          p2 = Print (isoformat_milliseconds (now w (tr @ t4)) @
                 '' Shutter sequence complete.'')
      in case fails w tr p1 of
        Some e \<Rightarrow> (Inl (Raised e), [(p1, Some e)])
      | None \<Rightarrow>
     (case fails w (tr @ t0) focus_write of
        Some e \<Rightarrow> (Inl (Raised e), t0 @ [(focus_write, Some e)])
      | None \<Rightarrow>
     (case fails w (tr @ t1) (Sleep 300) of
        Some e \<Rightarrow> (Inl (Raised e), t1 @ [(Sleep 300, Some e)])
      | None \<Rightarrow>
     (case fails w (tr @ t2) press_write of
        Some e \<Rightarrow> (Inl (Raised e), t2 @ [(press_write, Some e)])
      | None \<Rightarrow>
     (case fails w (tr @ t3) release_write of
        Some e \<Rightarrow> (Inl (Raised e), t3 @ [(release_write, Some e)])
      | None \<Rightarrow>
     (case fails w (tr @ t4) p2 of
        Some e \<Rightarrow> (Inl (Raised e), t4 @ [(p2, Some e)])
      | None \<Rightarrow> (Inr (), t4 @ [(p2, None)])))))))"
  by (simp add: trigger_shutter_def io_defs payloads Let_def write_defs split: option.split)

lemma handshake_unfold:
  "handshake w tr =
     (let p = Print (isoformat_milliseconds (now w (tr @ [(handshake_write, None)])) @
                '' Handshake complete.'')
      in case fails w tr handshake_write of
        Some e \<Rightarrow> (Inl (Raised e), [(handshake_write, Some e)])
      | None \<Rightarrow>
     (case fails w (tr @ [(handshake_write, None)]) p of
        Some e \<Rightarrow> (Inl (Raised e), [(handshake_write, None), (p, Some e)])
      | None \<Rightarrow> (Inr (), [(handshake_write, None), (p, None)])))"
  by (simp add: handshake_def io_defs payloads write_defs Let_def split: option.split)


lemma session_unfold:
  "session w tr =
     (let c = Print (isoformat_milliseconds (now w tr) @ '' Connected to camera!'') in
      case fails w tr c of
        Some e \<Rightarrow> (Inl (Raised e), [(c, Some e)])
      | None \<Rightarrow>
     (case handshake w (tr @ [(c, None)]) of
        (Inl e, hs) \<Rightarrow> (Inl e, (c, None) # hs)
      | (Inr _, hs) \<Rightarrow>
     (case trigger_shutter w (tr @ (c, None) # hs) of
        (Inl e, sh) \<Rightarrow> (Inl e, (c, None) # hs @ sh)
      | (Inr _, sh) \<Rightarrow>
     (let d = Print (isoformat_milliseconds (now w (tr @ (c, None) # hs @ sh)) @
                '' Disconnecting. Physical buttons unlocked.'')
      in case fails w (tr @ (c, None) # hs @ sh) d of
        Some e \<Rightarrow> (Inl (Raised e), (c, None) # hs @ sh @ [(d, Some e)])
      | None \<Rightarrow> (Inr (), (c, None) # hs @ sh @ [(d, None)])))))"
proof -
  let ?c = "Print (isoformat_milliseconds (now w tr) @ '' Connected to camera!'')"
  note defs = session_def io_return_def io_bind_def print_def perform_def timestamp_def
    Let_def
  show ?thesis
  proof (cases "fails w tr ?c")
    case (Some e)
    then show ?thesis by (simp add: defs)
  next
    case None
    obtain hr hs where hs: "handshake w (tr @ [(?c, None)]) = (hr, hs)"
      by (cases "handshake w (tr @ [(?c, None)])")
    show ?thesis
    proof (cases hr)
      case (Inl x)
      with None hs show ?thesis by (simp add: defs)
    next
      case (Inr u)
      obtain sr sh where sh: "trigger_shutter w (tr @ (?c, None) # hs) = (sr, sh)"
        by (cases "trigger_shutter w (tr @ (?c, None) # hs)")
      show ?thesis
      proof (cases sr)
        case (Inl x)
        with None hs Inr sh show ?thesis by (simp add: defs)
      next
        case (Inr v)
        with None hs \<open>hr = Inr u\<close> sh show ?thesis
          by (simp add: defs split: option.split)
      qed
    qed
  qed
qed

section \<open>Counting and scanning traces\<close>

lemma disconnects_simps:
  "disconnects [] = 0"
  "disconnects ((a, out) # evs) = (if a = Disconnect then 1 else 0) + disconnects evs"
  "disconnects (xs @ ys) = disconnects xs + disconnects ys"
  by (simp_all add: disconnects_def actions_def)

lemma connects_simps:
  "connects [] = 0"
  "connects ((a, out) # evs) = (if is_connect a then 1 else 0) + connects evs"
  "connects (xs @ ys) = connects xs + connects ys"
  by (simp_all add: connects_def actions_def)

lemma writes_to_simps:
  "writes_to h [] = []"
  "writes_to h ((a, out) # evs) = (if is_write_to h a then a # writes_to h evs else writes_to h evs)"
  "writes_to h (xs @ ys) = writes_to h xs @ writes_to h ys"
  by (simp_all add: writes_to_def actions_def)

lemma unlocked_append: "unlocked ok (xs @ ys) = unlocked (unlocked ok xs) ys"
  by (induction xs arbitrary: ok) auto

lemma shutter_guarded_append:
  "shutter_guarded ok (xs @ ys) = (shutter_guarded ok xs \<and> shutter_guarded (unlocked ok xs) ys)"
  by (induction xs arbitrary: ok) auto

lemma connection_open_append:
  "connection_open b (xs @ ys) = connection_open (connection_open b xs) ys"
  by (induction b xs rule: connection_open.induct) auto

lemma serial_sessions_append:
  "serial_sessions b (xs @ ys) = (serial_sessions b xs \<and> serial_sessions (connection_open b xs) ys)"
  by (induction b xs rule: serial_sessions.induct) auto

lemma handshake_events:
  assumes "handshake w tr = (r, evs)"
  shows "disconnects evs = 0" "connects evs = 0" "serial_sessions b evs"
    "connection_open b evs = b" "writes_to SHUTTER_HANDLE evs = []" "shutter_guarded ok evs"
    "r = Inr u \<Longrightarrow> unlocked ok evs"
    "(handshake_write, Some e) \<in> set evs \<Longrightarrow> r = Inl (Raised e)"
    "r = Inr u \<Longrightarrow> (handshake_write, Some e) \<notin> set evs"
  using assms
  by (auto simp: handshake_unfold Let_def disconnects_simps connects_simps writes_to_simps
      handshake_write_def handles_distinct split: option.splits)

lemma trigger_shutter_events:
  assumes "trigger_shutter w tr = (r, evs)"
  shows "disconnects evs = 0" "connects evs = 0" "serial_sessions b evs"
    "connection_open b evs = b" "shutter_guarded True evs"
    "(handshake_write, out) \<notin> set evs"
  using assms
  by (auto simp: trigger_shutter_unfold Let_def disconnects_simps connects_simps write_defs
      handles_distinct split: option.splits)

lemma session_events:
  assumes "session w tr = (r, evs)"
  shows "disconnects evs = 0" "connects evs = 0" "serial_sessions b evs"
    "connection_open b evs = b" "shutter_guarded False evs"
proof -
  let ?c = "Print (isoformat_milliseconds (now w tr) @ '' Connected to camera!'')"
  obtain hr hs where hs: "handshake w (tr @ [(?c, None)]) = (hr, hs)"
    by (cases "handshake w (tr @ [(?c, None)])")
  obtain sr sh where sh: "trigger_shutter w (tr @ (?c, None) # hs) = (sr, sh)"
    by (cases "trigger_shutter w (tr @ (?c, None) # hs)")
  note h = handshake_events [OF hs]
  note s = trigger_shutter_events [OF sh]
  have not_hw: "?c \<noteq> handshake_write"
    by (simp add: handshake_write_def)
  have evs: "evs = [(?c, fails w tr ?c)] \<or> evs = (?c, None) # hs \<or>
    evs = (?c, None) # hs @ sh \<and> hr = Inr () \<or>
    (\<exists>d out. evs = (?c, None) # hs @ sh @ [(Print d, out)] \<and> hr = Inr ())"
    using assms hs sh
    by (auto simp: session_unfold Let_def split: option.splits sum.splits)
  then show "disconnects evs = 0"
    by (auto simp: disconnects_simps h(1) s(1))
  from evs show "connects evs = 0"
    by (auto simp: connects_simps h(2) s(2))
  from evs show "serial_sessions b evs"
    by (auto simp: serial_sessions_append connection_open_append h(3,4) s(3,4))
  from evs show "connection_open b evs = b"
    by (auto simp: connection_open_append h(4) s(4))
  from evs show "shutter_guarded False evs"
    using h(7) [of "()" False]
    by (auto simp: shutter_guarded_append unlocked_append not_hw h(6) s(5))
qed

lemma session_handshake_failure:
  assumes "session w tr = (r, evs)" "(handshake_write, Some e) \<in> set evs"
  shows "writes_to SHUTTER_HANDLE evs = [] \<and> r = Inl (Raised e)"
proof -
  let ?c = "Print (isoformat_milliseconds (now w tr) @ '' Connected to camera!'')"
  have not_hw: "?c \<noteq> handshake_write"
    by (simp add: handshake_write_def)
  show ?thesis
  proof (cases "fails w tr ?c")
    case (Some x)
    with assms not_hw show ?thesis
      by (auto simp: session_unfold Let_def)
  next
    case None
    obtain hr hs where hs: "handshake w (tr @ [(?c, None)]) = (hr, hs)"
      by (cases "handshake w (tr @ [(?c, None)])")
    show ?thesis
    proof (cases hr)
      case (Inl x)
      have "evs = (?c, None) # hs" "r = Inl x"
        using assms(1) hs Inl None by (simp_all add: session_unfold Let_def)
      with assms(2) handshake_events(5) [OF hs] handshake_events(8) [OF hs, where e = e] Inl
        not_hw
      show ?thesis
        by (simp add: writes_to_simps)
    next
      case (Inr u)
      obtain sr sh where sh: "trigger_shutter w (tr @ (?c, None) # hs) = (sr, sh)"
        by (cases "trigger_shutter w (tr @ (?c, None) # hs)")
      have "(handshake_write, Some e) \<notin> set hs"
        using handshake_events(9) [OF hs, where e = e] Inr by simp
      moreover have "(handshake_write, Some e) \<notin> set sh"
        by (rule trigger_shutter_events(6) [OF sh])
      ultimately have "(handshake_write, Some e) \<notin> set evs"
        using assms(1) hs sh Inr None not_hw
        by (cases sr) (auto simp: session_unfold Let_def handshake_write_def
            split: option.splits)
      with assms(2) show ?thesis by simp
    qed
  qed
qed

section \<open>The session as a scope\<close>

lemma take_photo_alt:
  "take_photo w =
     async_with_BleakClient w CAMERA_ADDR
       (\<lambda>tr. if \<not> is_connected w tr then print w ''Failed to connect to camera.'' tr
             else session w tr)"
  unfolding take_photo_def session_def ..

lemma take_photo_refused:
  assumes "fails w tr (Connect CAMERA_ADDR) = Some e"
  shows "take_photo w tr = (Inl (Raised e), [(Connect CAMERA_ADDR, Some e)])"
  using assms by (simp add: take_photo_alt async_with_BleakClient_def)

lemma take_photo_entered:
  assumes "fails w tr (Connect CAMERA_ADDR) = None"
    and "(if \<not> is_connected w (tr @ [(Connect CAMERA_ADDR, None)])
          then print w ''Failed to connect to camera.'' (tr @ [(Connect CAMERA_ADDR, None)])
          else session w (tr @ [(Connect CAMERA_ADDR, None)])) = (r, evs)"
  shows "snd (take_photo w tr) =
           (Connect CAMERA_ADDR, None) # evs @
           [(Disconnect, fails w (tr @ (Connect CAMERA_ADDR, None) # evs) Disconnect)]"
    and "fst (take_photo w tr) =
           (case fails w (tr @ (Connect CAMERA_ADDR, None) # evs) Disconnect of
              None \<Rightarrow> r
            | Some d \<Rightarrow> (case r of Inr _ \<Rightarrow> Inl (Raised d) | Inl c \<Rightarrow> Inl (Chained d c)))"
  using assms
  by (simp_all add: take_photo_alt async_with_BleakClient_def Let_def
      split: option.split sum.split)

lemma body_events:
  assumes "(if \<not> is_connected w tr then print w ''Failed to connect to camera.'' tr
            else session w tr) = (r, evs)"
  shows "disconnects evs = 0" "connects evs = 0" "serial_sessions b evs"
    "connection_open b evs = b" "shutter_guarded False evs"
    "(handshake_write, Some e) \<in> set evs \<Longrightarrow>
       writes_to SHUTTER_HANDLE evs = [] \<and> r = Inl (Raised e)"
proof -
  show "disconnects evs = 0" "connects evs = 0" "serial_sessions b evs"
    "connection_open b evs = b" "shutter_guarded False evs"
    using assms session_events [of w tr r evs]
    by (auto simp: print_def perform_def disconnects_simps connects_simps
        split: if_splits option.splits)
  show "writes_to SHUTTER_HANDLE evs = [] \<and> r = Inl (Raised e)"
    if "(handshake_write, Some e) \<in> set evs"
    using assms that session_handshake_failure [of w tr r evs e]
    by (auto simp: print_def perform_def handshake_write_def split: if_splits option.splits)
qed

lemma take_photo_serial:
  "serial_sessions False (snd (take_photo w tr)) \<and>
   \<not> connection_open False (snd (take_photo w tr)) \<and>
   connects (snd (take_photo w tr)) = 1"
proof (cases "fails w tr (Connect CAMERA_ADDR)")
  case (Some e)
  show ?thesis
    by (simp add: take_photo_refused [OF Some] connects_simps)
next
  case None
  let ?tr1 = "tr @ [(Connect CAMERA_ADDR, None)]"
  obtain r evs where body:
    "(if \<not> is_connected w ?tr1 then print w ''Failed to connect to camera.'' ?tr1
      else session w ?tr1) = (r, evs)"
    by (cases "if \<not> is_connected w ?tr1 then print w ''Failed to connect to camera.'' ?tr1
      else session w ?tr1")
  show ?thesis
    by (simp add: take_photo_entered(1) [OF None body] serial_sessions_append
        connection_open_append connects_simps body_events(2,3,4) [OF body])
qed

lemma take_photo_first_action:
  "snd (take_photo w tr) \<noteq> [] \<and> fst (hd (snd (take_photo w tr))) = Connect CAMERA_ADDR"
proof (cases "fails w tr (Connect CAMERA_ADDR)")
  case (Some e)
  show ?thesis
    by (simp add: take_photo_refused [OF Some])
next
  case None
  let ?tr1 = "tr @ [(Connect CAMERA_ADDR, None)]"
  obtain r evs where body:
    "(if \<not> is_connected w ?tr1 then print w ''Failed to connect to camera.'' ?tr1
      else session w ?tr1) = (r, evs)"
    by (cases "if \<not> is_connected w ?tr1 then print w ''Failed to connect to camera.'' ?tr1
      else session w ?tr1")
  show ?thesis
    by (simp add: take_photo_entered(1) [OF None body])
qed

lemma never_fails_returns:
  assumes "fails w = (\<lambda>tr a. None)"
  shows "fst (take_photo w tr) = Inr ()"
proof -
  have f: "fails w t a = None" for t a
    by (simp add: assms)
  show ?thesis
    by (simp add: take_photo_alt async_with_BleakClient_def session_unfold handshake_unfold
        trigger_shutter_unfold print_def perform_def Let_def f)
qed

lemma main_loop_serial:
  "serial_sessions False (snd (main_loop w stdin tr)) \<and>
   \<not> connection_open False (snd (main_loop w stdin tr)) \<and>
   connects (snd (main_loop w stdin tr)) \<le>
     length (takeWhile (\<lambda>l. str_lower (str_strip l) \<noteq> ''q'') stdin) \<and>
   (fails w = (\<lambda>tr a. None) \<longrightarrow>
      connects (snd (main_loop w stdin tr)) =
        length (takeWhile (\<lambda>l. str_lower (str_strip l) \<noteq> ''q'') stdin))"
proof (induction stdin arbitrary: tr)
  case Nil
  show ?case by (simp add: connects_simps)
next
  case (Cons line rest)
  let ?ev = "(Input ''>> '', None :: error option)"
  obtain r evs where tp: "take_photo w (tr @ [?ev]) = (r, evs)"
    by (cases "take_photo w (tr @ [?ev])")
  have evs: "serial_sessions False evs" "\<not> connection_open False evs" "connects evs = 1"
    using take_photo_serial [of w "tr @ [?ev]"] tp by simp_all
  have ret: "r = Inr ()" if "fails w = (\<lambda>tr a. None)"
    using never_fails_returns [OF that, of "tr @ [?ev]"] tp by simp
  obtain r' evs' where ml: "main_loop w rest (tr @ ?ev # evs) = (r', evs')"
    by (cases "main_loop w rest (tr @ ?ev # evs)")
  have evs': "serial_sessions False evs'" "\<not> connection_open False evs'"
    "connects evs' \<le> length (takeWhile (\<lambda>l. str_lower (str_strip l) \<noteq> ''q'') rest)"
    "fails w = (\<lambda>tr a. None) \<Longrightarrow>
       connects evs' = length (takeWhile (\<lambda>l. str_lower (str_strip l) \<noteq> ''q'') rest)"
    using Cons.IH [of "tr @ ?ev # evs"] ml by simp_all
  show ?case
  proof (cases "str_lower (str_strip line) = ''q''")
    case True
    then show ?thesis by (simp add: connects_simps)
  next
    case False
    show ?thesis
    proof (cases r)
      case (Inl x)
      with False tp evs ret show ?thesis
        by (auto simp: connects_simps)
    next
      case (Inr u)
      with False tp ml evs evs' show ?thesis
        by (simp add: serial_sessions_append connection_open_append connects_simps)
    qed
  qed
qed

section \<open>Formatting and decoding\<close>

lemma digit_val_digit_char: "d < 16 \<Longrightarrow> digit_val (digit_char d) = Some d"
  by (simp add: digit_val_def digit_char_def Let_def)

lemma bytes_fromhex_hex: "bytes_fromhex (hex data) = Some data"
proof (induction data)
  case Nil
  show ?case by (simp add: hex_def)
next
  case (Cons b bs)
  have "16 * (unat b div 16) + unat b mod 16 = unat b"
    by simp
  then have "(of_nat (16 * (unat b div 16) + unat b mod 16) :: byte) = b"
    by simp
  moreover have "unat b < 2 ^ LENGTH(8)"
    by (rule unsigned_less)
  then have "unat b div 16 < 16"
    by simp
  ultimately show ?case
    using Cons by (simp add: hex_def hex_byte_def digit_val_digit_char)
qed

lemma length_hex: "length (hex data) = 2 * length data"
  by (induction data) (simp_all add: hex_def hex_byte_def)

lemma digits_value_append:
  "digits_value b acc (xs @ ys) =
     (case digits_value b acc xs of None \<Rightarrow> None | Some a \<Rightarrow> digits_value b a ys)"
  by (induction xs arbitrary: acc) (auto split: option.splits)

lemma digits_value_zeros: "digits_value 10 0 (replicate k (CHR ''0'')) = Some 0"
  by (induction k) (simp_all add: digit_val_def)

lemma digits_value_dec: "digits_value 10 0 (dec n) = Some n"
proof (induction n rule: dec.induct)
  case (1 n)
  show ?case
  proof (cases "n < 10")
    case True
    then show ?thesis
      by (subst dec.simps) (simp add: digit_val_digit_char)
  next
    case False
    have "n mod 10 < 16" by simp
    with False "1.IH" show ?thesis
      by (subst dec.simps) (simp add: digits_value_append digit_val_digit_char)
  qed
qed

lemma digits_value_hex_nat: "digits_value 16 0 (hex_nat n) = Some n"
proof (induction n rule: hex_nat.induct)
  case (1 n)
  show ?case
  proof (cases "n < 16")
    case True
    then show ?thesis
      by (subst hex_nat.simps) (simp add: digit_val_digit_char)
  next
    case False
    with "1.IH" show ?thesis
      by (subst hex_nat.simps) (simp add: digits_value_append digit_val_digit_char)
  qed
qed

lemma digit_char_not_minus:
  assumes "d < 16"
  shows "digit_char d \<noteq> CHR ''-''"
proof
  assume "digit_char d = CHR ''-''"
  with digit_val_digit_char [OF assms] have "digit_val (CHR ''-'') = Some d"
    by simp
  then show False
    by (simp add: digit_val_def)
qed

lemma hex_nat_first: "hex_nat n \<noteq> [] \<and> hd (hex_nat n) \<noteq> CHR ''-''"
proof (induction n rule: hex_nat.induct)
  case (1 n)
  show ?case
  proof (cases "n < 16")
    case True
    then show ?thesis
      by (subst (1 2) hex_nat.simps) (simp add: digit_char_not_minus)
  next
    case False
    with "1.IH" show ?thesis
      by (subst (1 2) hex_nat.simps) simp
  qed
qed

lemma int_of_hex_format_x: "int_of_hex (format_x i) = Some i"
proof (cases "i < 0")
  case True
  then show ?thesis
    using hex_nat_first [of "nat (- i)"]
    by (simp add: int_of_hex_def format_x_def digits_value_hex_nat)
next
  case False
  obtain c cs where s: "hex_nat (nat i) = c # cs" "c \<noteq> CHR ''-''"
    using hex_nat_first [of "nat i"] by (cases "hex_nat (nat i)") auto
  have "digits_value 16 0 (c # cs) = Some (nat i)"
    using digits_value_hex_nat [of "nat i"] s(1) by simp
  with False s show ?thesis
    by (simp add: int_of_hex_def format_x_def del: digits_value.simps)
qed

lemma length_dec: "n < 10 ^ k \<Longrightarrow> 0 < k \<Longrightarrow> length (dec n) \<le> k"
proof (induction k arbitrary: n)
  case 0
  then show ?case by simp
next
  case (Suc k)
  show ?case
  proof (cases "n < 10")
    case True
    then show ?thesis by (subst dec.simps) simp
  next
    case False
    with Suc.prems have "n div 10 < 10 ^ k"
      by (simp add: less_mult_imp_div_less mult.commute)
    moreover from False Suc.prems have "0 < k"
      by (cases k) simp_all
    ultimately have "length (dec (n div 10)) \<le> k"
      by (rule Suc.IH)
    with False show ?thesis
      by (subst dec.simps) simp
  qed
qed

lemma dec_not_Nil: "dec n \<noteq> []"
  by (subst dec.simps) simp

lemma length_zero_pad: "n < 10 ^ k \<Longrightarrow> 0 < k \<Longrightarrow> length (zero_pad k n) = k"
  using length_dec [of n k] by (simp add: zero_pad_def)

lemma nat_of_dec_zero_pad: "nat_of_dec (zero_pad k n) = Some n"
  by (simp add: nat_of_dec_def zero_pad_def dec_not_Nil digits_value_append
      digits_value_zeros digits_value_dec)

lemma isoformat_shape:
  assumes "valid_datetime t"
  shows "length (isoformat_milliseconds t) = 23"
    and "take 4 (isoformat_milliseconds t) = zero_pad 4 (year t)"
    and "take 2 (drop 5 (isoformat_milliseconds t)) = zero_pad 2 (month t)"
    and "take 2 (drop 8 (isoformat_milliseconds t)) = zero_pad 2 (day t)"
    and "take 2 (drop 11 (isoformat_milliseconds t)) = zero_pad 2 (hour t)"
    and "take 2 (drop 14 (isoformat_milliseconds t)) = zero_pad 2 (minute t)"
    and "take 2 (drop 17 (isoformat_milliseconds t)) = zero_pad 2 (second t)"
    and "drop 20 (isoformat_milliseconds t) = zero_pad 3 (microsecond t div 1000)"
    and "map (\<lambda>i. isoformat_milliseconds t ! i) [4, 7, 10, 13, 16, 19] = ''--T::.''"
proof -
  have l: "length (zero_pad 4 (year t)) = 4" "length (zero_pad 2 (month t)) = 2"
    "length (zero_pad 2 (day t)) = 2" "length (zero_pad 2 (hour t)) = 2"
    "length (zero_pad 2 (minute t)) = 2" "length (zero_pad 2 (second t)) = 2"
    "length (zero_pad 3 (microsecond t div 1000)) = 3"
    using assms by (simp_all add: valid_datetime_def length_zero_pad less_mult_imp_div_less)
  show "length (isoformat_milliseconds t) = 23"
    by (simp add: isoformat_milliseconds_def l)
  show "take 4 (isoformat_milliseconds t) = zero_pad 4 (year t)"
    by (simp add: isoformat_milliseconds_def l)
  show "take 2 (drop 5 (isoformat_milliseconds t)) = zero_pad 2 (month t)"
    by (simp add: isoformat_milliseconds_def l)
  show "take 2 (drop 8 (isoformat_milliseconds t)) = zero_pad 2 (day t)"
    by (simp add: isoformat_milliseconds_def l)
  show "take 2 (drop 11 (isoformat_milliseconds t)) = zero_pad 2 (hour t)"
    by (simp add: isoformat_milliseconds_def l)
  show "take 2 (drop 14 (isoformat_milliseconds t)) = zero_pad 2 (minute t)"
    by (simp add: isoformat_milliseconds_def l)
  show "take 2 (drop 17 (isoformat_milliseconds t)) = zero_pad 2 (second t)"
    by (simp add: isoformat_milliseconds_def l)
  show "drop 20 (isoformat_milliseconds t) = zero_pad 3 (microsecond t div 1000)"
    by (simp add: isoformat_milliseconds_def l)
  show "map (\<lambda>i. isoformat_milliseconds t ! i) [4, 7, 10, 13, 16, 19] = ''--T::.''"
    by (simp add: isoformat_milliseconds_def l nth_append)
qed

lemma of_char_chr: "(of_char (chr b) :: nat) = unat b"
proof -
  have "unat b < 2 ^ LENGTH(8)"
    by (rule unsigned_less)
  then show ?thesis
    by (simp add: chr_def)
qed

lemmas run_defs = take_photo_alt async_with_BleakClient_def session_unfold handshake_unfold
  trigger_shutter_unfold print_def perform_def Let_def write_defs

lemmas world_defs = w_ok_def w_focus_fails_def w_press_fails_def w_handshake_fails_def
  w_not_connected_def w_log_fails_def

section \<open>The shutter sequence\<close>

text \<open>
  C1, as the specification states it: the Release write is made on every run of
  \<^verbatim>\<open>trigger_shutter\<close>, also when the Focus write fails. The code has no cleanup phase:
  in a world where the Focus write raises, the exception leaves the coroutine at once and
  no Release write is made.
\<close>

theorem release_skipped_when_focus_fails:
  "fst (trigger_shutter w_focus_fails []) = Inl (Raised BleakError) \<and>
   release_write \<notin> set (actions (snd (trigger_shutter w_focus_fails [])))"
  by (simp add: trigger_shutter_unfold w_focus_fails_def w_ok_def actions_def Let_def
      focus_write_def release_write_def)

text \<open>
  C1, amended: the Release write is attempted exactly when the Focus write, the 300 ms
  wait and the ShutterAndFocus write have all returned; a call of the sequence that raises
  is the last action of the sequence, and its exception is what \<^verbatim>\<open>trigger_shutter\<close>
  raises.
\<close>

theorem release_attempted_iff:
  "(release_write \<in> set (actions (snd (trigger_shutter w tr)))) =
     ((focus_write, None) \<in> set (snd (trigger_shutter w tr)) \<and>
      (Sleep 300, None) \<in> set (snd (trigger_shutter w tr)) \<and>
      (press_write, None) \<in> set (snd (trigger_shutter w tr))) \<and>
   (\<forall>a e. (a, Some e) \<in> set (snd (trigger_shutter w tr)) \<longrightarrow>
      fst (trigger_shutter w tr) = Inl (Raised e) \<and>
      last (snd (trigger_shutter w tr)) = (a, Some e))"
  by (simp add: trigger_shutter_unfold actions_def Let_def write_defs split: option.split)

theorem release_attempted_iff_witness:
  "(press_write, Some TimeoutError) \<in> set (snd (trigger_shutter w_press_fails [])) \<and>
   fst (trigger_shutter w_press_fails []) = Inl (Raised TimeoutError) \<and>
   (focus_write, None) \<in> set (snd (trigger_shutter w_press_fails [])) \<and>
   release_write \<notin> set (actions (snd (trigger_shutter w_press_fails [])))"
  using release_attempted_iff [of w_press_fails "[]"]
  by (simp add: trigger_shutter_unfold w_press_fails_def w_ok_def Let_def write_defs)

text \<open>
  C3: a run of \<^verbatim>\<open>trigger_shutter\<close> that returns has made exactly these calls, in this
  order: the unacknowledged write of \<open>0x0C\<close> to the shutter characteristic, the sleep
  of 300 ms, the unacknowledged write of \<open>0x8C\<close>, which is
  \<open>BUTTON_RELEASE OR IMMEDIATE\<close>, and the unacknowledged write of \<open>0x00\<close> with no
  call between the last two writes; the only other actions are the two log lines around
  them. The wait is the delay the code asks of \<^verbatim>\<open>asyncio.sleep\<close>.
\<close>

theorem trigger_shutter_success_trace:
  assumes "trigger_shutter w tr = (Inr (), evs)"
  shows "(\<exists>ts1 ts2. evs =
           [(Print (ts1 @ '' --- Triggering Shutter Sequence ---''), None),
            (WriteGattChar SHUTTER_HANDLE [0x0C] False, None),
            (Sleep 300, None),
            (WriteGattChar SHUTTER_HANDLE [0x8C] False, None),
            (WriteGattChar SHUTTER_HANDLE [0x00] False, None),
            (Print (ts2 @ '' Shutter sequence complete.''), None)]) \<and>
         writes_to SHUTTER_HANDLE evs =
           [WriteGattChar SHUTTER_HANDLE [0x0C] False,
            WriteGattChar SHUTTER_HANDLE [0x8C] False,
            WriteGattChar SHUTTER_HANDLE [0x00] False] \<and>
         BUTTON_RELEASE OR IMMEDIATE = 0x8C"
  using assms
  by (auto simp: trigger_shutter_unfold Let_def write_defs writes_to_def actions_def
      BUTTON_RELEASE_def IMMEDIATE_def split: option.splits)

theorem trigger_shutter_success_trace_witness:
  "trigger_shutter w_ok [] =
     (Inr (),
      [(Print ''2024-05-17T09:30:00.123 --- Triggering Shutter Sequence ---'', None),
       (WriteGattChar SHUTTER_HANDLE [0x0C] False, None),
       (Sleep 300, None),
       (WriteGattChar SHUTTER_HANDLE [0x8C] False, None),
       (WriteGattChar SHUTTER_HANDLE [0x00] False, None),
       (Print ''2024-05-17T09:30:00.123 Shutter sequence complete.'', None)]) \<and>
   writes_to SHUTTER_HANDLE (snd (trigger_shutter w_ok [])) =
     [WriteGattChar SHUTTER_HANDLE [0x0C] False,
      WriteGattChar SHUTTER_HANDLE [0x8C] False,
      WriteGattChar SHUTTER_HANDLE [0x00] False]"
proof -
  have run: "trigger_shutter w_ok [] =
     (Inr (),
      [(Print ''2024-05-17T09:30:00.123 --- Triggering Shutter Sequence ---'', None),
       (WriteGattChar SHUTTER_HANDLE [0x0C] False, None),
       (Sleep 300, None),
       (WriteGattChar SHUTTER_HANDLE [0x8C] False, None),
       (WriteGattChar SHUTTER_HANDLE [0x00] False, None),
       (Print ''2024-05-17T09:30:00.123 Shutter sequence complete.'', None)])"
    by (simp add: trigger_shutter_unfold w_ok_def Let_def write_defs format_defs)
  from trigger_shutter_success_trace [OF run] run show ?thesis by simp
qed

section \<open>Handshake and indications\<close>

text \<open>
  C4, as the specification states it: the success of \<^verbatim>\<open>handshake\<close> is defined solely
  by its write being acknowledged. The code prints a log line after the write: in a world
  where the write is acknowledged and that \<^verbatim>\<open>print\<close> raises, \<^verbatim>\<open>handshake\<close> raises.
\<close>

theorem handshake_fails_after_acknowledged_write:
  "(handshake_write, None) \<in> set (snd (handshake w_log_fails [])) \<and>
   fst (handshake w_log_fails []) = Inl (Raised OSError)"
  by (simp add: handshake_unfold world_defs Let_def handshake_write_def)

text \<open>
  C4, amended: \<^verbatim>\<open>handshake\<close> makes one call on the transport, the acknowledged write
  to the pairing characteristic of the six bytes \<open>0x03\<close>, \<open>L\<close>, \<open>I\<close>, \<open>N\<close>,
  \<open>U\<close>, \<open>X\<close>, and reads nothing back; it returns exactly when that write was
  acknowledged and the log line after it was printed; when the write raises,
  \<^verbatim>\<open>handshake\<close> raises that exception and does nothing else.
\<close>

theorem handshake_single_acknowledged_write:
  "filter (\<lambda>a. \<not> is_print a) (actions (snd (handshake w tr))) =
     [WriteGattChar PAIRING_HANDLE (0x03 # map (\<lambda>c. of_nat (of_char c)) ''LINUX'') True] \<and>
   length (0x03 # map (\<lambda>c. of_nat (of_char c)) ''LINUX'' :: byte list) = 6 \<and>
   (fst (handshake w tr) = Inr ()) =
     ((WriteGattChar PAIRING_HANDLE [0x03, 0x4C, 0x49, 0x4E, 0x55, 0x58] True, None)
        \<in> set (snd (handshake w tr)) \<and>
      (\<exists>ts. (Print (ts @ '' Handshake complete.''), None) \<in> set (snd (handshake w tr)))) \<and>
   (\<forall>e. (WriteGattChar PAIRING_HANDLE [0x03, 0x4C, 0x49, 0x4E, 0x55, 0x58] True, Some e)
          \<in> set (snd (handshake w tr)) \<longrightarrow>
        handshake w tr =
          (Inl (Raised e),
           [(WriteGattChar PAIRING_HANDLE [0x03, 0x4C, 0x49, 0x4E, 0x55, 0x58] True, Some e)]))"
  by (auto simp: handshake_unfold handshake_write_def actions_def Let_def split: option.split)

theorem handshake_single_acknowledged_write_witness:
  "(handshake_write, Some BleakError) \<in> set (snd (handshake w_handshake_fails [])) \<and>
   handshake w_handshake_fails [] = (Inl (Raised BleakError), [(handshake_write, Some BleakError)]) \<and>
   handshake w_ok [] =
     (Inr (), [(handshake_write, None),
               (Print ''2024-05-17T09:30:00.123 Handshake complete.'', None)])"
proof -
  have m: "(handshake_write, Some BleakError) \<in> set (snd (handshake w_handshake_fails []))"
    by (simp add: handshake_unfold world_defs Let_def)
  have ok: "handshake w_ok [] =
     (Inr (), [(handshake_write, None),
               (Print ''2024-05-17T09:30:00.123 Handshake complete.'', None)])"
    by (simp add: handshake_unfold world_defs Let_def format_defs)
  from handshake_single_acknowledged_write [of w_handshake_fails "[]"] m ok
  show ?thesis by (simp add: handshake_write_def)
qed



section \<open>The session\<close>

text \<open>
  C2: once the connection is made, \<^verbatim>\<open>take_photo\<close> disconnects exactly once whatever
  happens in between (success, a failed connection check, a failed handshake, a failed
  write or a cancelled sleep of the shutter sequence, a log line that cannot be printed),
  and the disconnect is its last action, made before the result or the exception reaches
  the caller.
\<close>

theorem take_photo_disconnects_once:
  assumes "fails w tr (Connect CAMERA_ADDR) = None"
  shows "disconnects (snd (take_photo w tr)) = 1 \<and>
         fst (last (snd (take_photo w tr))) = Disconnect"
proof -
  let ?tr1 = "tr @ [(Connect CAMERA_ADDR, None)]"
  obtain r evs where body:
    "(if \<not> is_connected w ?tr1 then print w ''Failed to connect to camera.'' ?tr1
      else session w ?tr1) = (r, evs)"
    by (cases "if \<not> is_connected w ?tr1 then print w ''Failed to connect to camera.'' ?tr1
      else session w ?tr1")
  show ?thesis
    by (simp add: take_photo_entered(1) [OF assms body] disconnects_simps
        body_events(1) [OF body])
qed

theorem take_photo_disconnects_once_witness:
  "fails w_focus_fails [] (Connect CAMERA_ADDR) = None \<and>
   fst (take_photo w_focus_fails []) = Inl (Raised BleakError) \<and>
   disconnects (snd (take_photo w_focus_fails [])) = 1 \<and>
   fst (last (snd (take_photo w_focus_fails []))) = Disconnect"
proof -
  have c: "fails w_focus_fails [] (Connect CAMERA_ADDR) = None"
    by (simp add: world_defs write_defs)
  have r: "fst (take_photo w_focus_fails []) = Inl (Raised BleakError)"
    by (simp add: run_defs world_defs)
  from take_photo_disconnects_once [OF c] c r show ?thesis by simp
qed

text \<open>
  C5: in every run of \<^verbatim>\<open>take_photo\<close>, a write to the shutter characteristic comes only
  after the handshake write has returned. When the handshake write raises, no write to
  the shutter characteristic is made, the connection is released exactly once, and the
  exception of the handshake is what \<^verbatim>\<open>take_photo\<close> raises; should the disconnect
  raise as well, its exception is raised with the handshake's as its context.
\<close>

theorem shutter_only_after_handshake:
  "shutter_guarded False (snd (take_photo w tr)) \<and>
   (\<forall>e. (handshake_write, Some e) \<in> set (snd (take_photo w tr)) \<longrightarrow>
      writes_to SHUTTER_HANDLE (snd (take_photo w tr)) = [] \<and>
      disconnects (snd (take_photo w tr)) = 1 \<and>
      (fst (take_photo w tr) = Inl (Raised e) \<or>
       (\<exists>d. (Disconnect, Some d) \<in> set (snd (take_photo w tr)) \<and>
            fst (take_photo w tr) = Inl (Chained d (Raised e)))))"
proof (cases "fails w tr (Connect CAMERA_ADDR)")
  case (Some e)
  show ?thesis
    by (simp add: take_photo_refused [OF Some] handshake_write_def)
next
  case None
  let ?tr1 = "tr @ [(Connect CAMERA_ADDR, None)]"
  obtain r evs where body:
    "(if \<not> is_connected w ?tr1 then print w ''Failed to connect to camera.'' ?tr1
      else session w ?tr1) = (r, evs)"
    by (cases "if \<not> is_connected w ?tr1 then print w ''Failed to connect to camera.'' ?tr1
      else session w ?tr1")
  note ev = take_photo_entered [OF None body]
  have guarded: "shutter_guarded False (snd (take_photo w tr))"
    by (simp add: ev(1) shutter_guarded_append body_events(5) [OF body] handshake_write_def)
  have failure: "writes_to SHUTTER_HANDLE (snd (take_photo w tr)) = [] \<and>
      disconnects (snd (take_photo w tr)) = 1 \<and>
      (fst (take_photo w tr) = Inl (Raised e) \<or>
       (\<exists>d. (Disconnect, Some d) \<in> set (snd (take_photo w tr)) \<and>
            fst (take_photo w tr) = Inl (Chained d (Raised e))))"
    if "(handshake_write, Some e) \<in> set (snd (take_photo w tr))" for e
  proof -
    from that have "(handshake_write, Some e) \<in> set evs"
      by (simp add: ev(1) handshake_write_def)
    from body_events(6) [OF body this]
    show ?thesis
      by (simp add: ev writes_to_simps disconnects_simps body_events(1) [OF body]
          split: option.split)
  qed
  from guarded failure show ?thesis by blast
qed

theorem shutter_only_after_handshake_witness:
  "(handshake_write, Some BleakError) \<in> set (snd (take_photo w_handshake_fails [])) \<and>
   writes_to SHUTTER_HANDLE (snd (take_photo w_handshake_fails [])) = [] \<and>
   disconnects (snd (take_photo w_handshake_fails [])) = 1 \<and>
   fst (take_photo w_handshake_fails []) = Inl (Raised BleakError)"
proof -
  have m: "(handshake_write, Some BleakError) \<in> set (snd (take_photo w_handshake_fails []))"
    by (simp add: run_defs world_defs)
  have r: "fst (take_photo w_handshake_fails []) = Inl (Raised BleakError)"
    by (simp add: run_defs world_defs)
  from shutter_only_after_handshake [of w_handshake_fails "[]"] m r show ?thesis by blast
qed

text \<open>
  C10: when the connection check reads false right after the connection is made,
  \<^verbatim>\<open>take_photo\<close> logs the failure and leaves the scope: its only actions are the
  connect, the log line and the disconnect, so no characteristic is written, read or
  subscribed; it returns normally exactly when the log line and the disconnect returned.
\<close>

theorem not_connected_returns_early:
  assumes "fails w tr (Connect CAMERA_ADDR) = None"
    and "\<not> is_connected w (tr @ [(Connect CAMERA_ADDR, None)])"
  shows "actions (snd (take_photo w tr)) =
           [Connect CAMERA_ADDR, Print ''Failed to connect to camera.'', Disconnect] \<and>
         (fst (take_photo w tr) = Inr ()) =
           ((Print ''Failed to connect to camera.'', None) \<in> set (snd (take_photo w tr)) \<and>
            (Disconnect, None) \<in> set (snd (take_photo w tr)))"
  using assms
  by (simp add: take_photo_alt async_with_BleakClient_def print_def perform_def actions_def
      Let_def split: option.split)

theorem not_connected_returns_early_witness:
  "fails w_not_connected [] (Connect CAMERA_ADDR) = None \<and>
   \<not> is_connected w_not_connected [(Connect CAMERA_ADDR, None)] \<and>
   actions (snd (take_photo w_not_connected [])) =
     [Connect CAMERA_ADDR, Print ''Failed to connect to camera.'', Disconnect] \<and>
   fst (take_photo w_not_connected []) = Inr ()"
proof -
  have c: "fails w_not_connected [] (Connect CAMERA_ADDR) = None"
    by (simp add: world_defs)
  have n: "\<not> is_connected w_not_connected ([] @ [(Connect CAMERA_ADDR, None)])"
    by (simp add: world_defs)
  have r: "fst (take_photo w_not_connected []) = Inr ()"
    by (simp add: run_defs world_defs)
  from not_connected_returns_early [OF c n] c n r show ?thesis by simp
qed

section \<open>Sessions and the interactive loop\<close>

text \<open>
  C7, as the specification states it: \<^verbatim>\<open>take_photo\<close> invoked while a session is active
  is rejected or queued and never opens a second connection. The code has no guard:
  invoked after a history in which a connection is open, \<^verbatim>\<open>take_photo\<close> connects at once
  and runs to its end, so two connections are open at the same time.
\<close>

theorem take_photo_opens_second_connection:
  "connection_open False busy_history \<and>
   fst (take_photo w_ok busy_history) = Inr () \<and>
   hd (snd (take_photo w_ok busy_history)) = (Connect CAMERA_ADDR, None) \<and>
   \<not> serial_sessions False (busy_history @ snd (take_photo w_ok busy_history))"
  by (simp add: run_defs world_defs busy_history_def)

text \<open>
  C7, amended: \<^verbatim>\<open>take_photo\<close> has no guard against a session that is active: whatever
  happened before, its first action is to connect. Sessions are kept apart by the
  interactive loop alone, which awaits every \<^verbatim>\<open>take_photo\<close> before it reads the next
  line: in every run of \<^verbatim>\<open>main\<close>, on every input, no connection is opened while one is
  open, and \<^verbatim>\<open>main\<close> connects at most once for each line before the quit command,
  exactly once when no call raises.
\<close>

theorem main_sessions_never_overlap:
  "serial_sessions False (snd (main w stdin tr)) \<and>
   connects (snd (main w stdin tr)) \<le>
     length (takeWhile (\<lambda>l. str_lower (str_strip l) \<noteq> ''q'') stdin) \<and>
   (fails w = (\<lambda>tr a. None) \<longrightarrow>
      connects (snd (main w stdin tr)) =
        length (takeWhile (\<lambda>l. str_lower (str_strip l) \<noteq> ''q'') stdin)) \<and>
   (\<forall>h. snd (take_photo w h) \<noteq> [] \<and>
        fst (hd (snd (take_photo w h))) = Connect CAMERA_ADDR)"
proof -
  let ?p = "Print ''Press ENTER to take a photo, or type 'q' to quit.''"
  obtain r evs where ml: "main_loop w stdin (tr @ [(?p, None)]) = (r, evs)"
    by (cases "main_loop w stdin (tr @ [(?p, None)])")
  have loop: "serial_sessions False evs"
    "connects evs \<le> length (takeWhile (\<lambda>l. str_lower (str_strip l) \<noteq> ''q'') stdin)"
    "fails w = (\<lambda>tr a. None) \<Longrightarrow>
       connects evs = length (takeWhile (\<lambda>l. str_lower (str_strip l) \<noteq> ''q'') stdin)"
    using main_loop_serial [of w stdin "tr @ [(?p, None)]"] ml by simp_all
  have run: "snd (main w stdin tr) = [(?p, fails w tr ?p)] \<and> fails w tr ?p \<noteq> None \<or>
    snd (main w stdin tr) = (?p, None) # evs \<and> fails w tr ?p = None"
    using ml
    by (cases r; cases "fails w tr ?p")
      (simp_all add: main_def io_bind_def io_return_def print_def perform_def)
  have "serial_sessions False (snd (main w stdin tr))"
    using run loop(1) by auto
  moreover have "connects (snd (main w stdin tr)) \<le>
      length (takeWhile (\<lambda>l. str_lower (str_strip l) \<noteq> ''q'') stdin)"
    using run loop(2) by (auto simp: connects_simps)
  moreover have "connects (snd (main w stdin tr)) =
      length (takeWhile (\<lambda>l. str_lower (str_strip l) \<noteq> ''q'') stdin)"
    if "fails w = (\<lambda>tr a. None)"
    using run loop(3) [OF that] that by (auto simp: connects_simps)
  ultimately show ?thesis
    using take_photo_first_action [of w] by blast
qed

theorem main_sessions_never_overlap_witness:
  "fails w_ok = (\<lambda>tr a. None) \<and>
   serial_sessions False (snd (main w_ok ['''', ''x'', '' Q '', ''y''] [])) \<and>
   connects (snd (main w_ok ['''', ''x'', '' Q '', ''y''] [])) = 2"
proof -
  have f: "fails w_ok = (\<lambda>tr a. None)"
    by (simp add: world_defs)
  have q: "str_lower (str_strip '' Q '') = ''q''" "str_lower (str_strip '''') \<noteq> ''q''"
    "str_lower (str_strip ''x'') \<noteq> ''q''"
    by (simp_all add: str_lower_def str_strip_def isspace_def lower_char_def Let_def
        char_of_eq_iff)
  from main_sessions_never_overlap [of w_ok "['''', ''x'', '' Q '', ''y'']" "[]"] f
  show ?thesis by (simp add: q)
qed

section \<open>Logging of notifications and device information\<close>

text \<open>
  C8: for a notification, \<^verbatim>\<open>status_handler\<close> makes one call, the \<^verbatim>\<open>print\<close> of a line
  made of the timestamp, the handle of the sending characteristic in hexadecimal and the
  payload in hexadecimal. The payload has two digits a byte and decodes to exactly the
  bytes received; the handle decodes to the handle; the timestamp of a valid
  \<^verbatim>\<open>datetime\<close> has 23 characters, its fields decode to the year, month, day, hour,
  minute and second, and its last three digits to the milliseconds.
\<close>

theorem status_handler_output:
  "status_handler w sender data tr =
     perform w
       (Print (isoformat_milliseconds (now w tr) @ ''  [NOTIFY] sender=0x'' @
               format_x (handle sender) @ ''  payload='' @ hex data)) tr \<and>
   actions (snd (status_handler w sender data tr)) =
     [Print (isoformat_milliseconds (now w tr) @ ''  [NOTIFY] sender=0x'' @
             format_x (handle sender) @ ''  payload='' @ hex data)] \<and>
   bytes_fromhex (hex data) = Some data \<and>
   length (hex data) = 2 * length data \<and>
   int_of_hex (format_x (handle sender)) = Some (handle sender) \<and>
   (valid_datetime (now w tr) \<longrightarrow>
      length (isoformat_milliseconds (now w tr)) = 23 \<and>
      map (\<lambda>i. isoformat_milliseconds (now w tr) ! i) [4, 7, 10, 13, 16, 19] = ''--T::.'' \<and>
      nat_of_dec (take 4 (isoformat_milliseconds (now w tr))) = Some (year (now w tr)) \<and>
      nat_of_dec (take 2 (drop 5 (isoformat_milliseconds (now w tr)))) =
        Some (month (now w tr)) \<and>
      nat_of_dec (take 2 (drop 8 (isoformat_milliseconds (now w tr)))) =
        Some (day (now w tr)) \<and>
      nat_of_dec (take 2 (drop 11 (isoformat_milliseconds (now w tr)))) =
        Some (hour (now w tr)) \<and>
      nat_of_dec (take 2 (drop 14 (isoformat_milliseconds (now w tr)))) =
        Some (minute (now w tr)) \<and>
      nat_of_dec (take 2 (drop 17 (isoformat_milliseconds (now w tr)))) =
        Some (second (now w tr)) \<and>
      nat_of_dec (drop 20 (isoformat_milliseconds (now w tr))) =
        Some (microsecond (now w tr) div 1000))"
proof -
  have line: "status_handler w sender data tr =
     perform w
       (Print (isoformat_milliseconds (now w tr) @ ''  [NOTIFY] sender=0x'' @
               format_x (handle sender) @ ''  payload='' @ hex data)) tr"
    by (simp add: status_handler_def io_bind_def timestamp_def print_def perform_def
        split: option.split)
  have acts: "actions (snd (status_handler w sender data tr)) =
     [Print (isoformat_milliseconds (now w tr) @ ''  [NOTIFY] sender=0x'' @
             format_x (handle sender) @ ''  payload='' @ hex data)]"
    by (simp add: line perform_def actions_def split: option.split)
  have shape: "length (isoformat_milliseconds t) = 23 \<and>
      map (\<lambda>i. isoformat_milliseconds t ! i) [4, 7, 10, 13, 16, 19] = ''--T::.'' \<and>
      nat_of_dec (take 4 (isoformat_milliseconds t)) = Some (year t) \<and>
      nat_of_dec (take 2 (drop 5 (isoformat_milliseconds t))) = Some (month t) \<and>
      nat_of_dec (take 2 (drop 8 (isoformat_milliseconds t))) = Some (day t) \<and>
      nat_of_dec (take 2 (drop 11 (isoformat_milliseconds t))) = Some (hour t) \<and>
      nat_of_dec (take 2 (drop 14 (isoformat_milliseconds t))) = Some (minute t) \<and>
      nat_of_dec (take 2 (drop 17 (isoformat_milliseconds t))) = Some (second t) \<and>
      nat_of_dec (drop 20 (isoformat_milliseconds t)) = Some (microsecond t div 1000)"
    if "valid_datetime t" for t
    by (simp only: isoformat_shape [OF that] nat_of_dec_zero_pad simp_thms)
  from line acts shape [of "now w tr"] bytes_fromhex_hex [of data] length_hex [of data]
    int_of_hex_format_x [of "handle sender"]
  show ?thesis by blast
qed

theorem status_handler_output_witness:
  "valid_datetime (now w_ok []) \<and>
   status_handler w_ok \<lparr>handle = 27, uuid = STATUS_CHAR_HANDLE\<rparr> [0xAA, 0xBB] [] =
     (Inr (), [(Print ''2024-05-17T09:30:00.123  [NOTIFY] sender=0x1b  payload=aabb'', None)]) \<and>
   bytes_fromhex ''aabb'' = Some [0xAA, 0xBB] \<and>
   int_of_hex ''1b'' = Some 27 \<and>
   nat_of_dec (drop 20 ''2024-05-17T09:30:00.123'') = Some 123"
proof -
  have v: "valid_datetime (now w_ok [])"
    by (simp add: world_defs valid_datetime_def)
  have t: "isoformat_milliseconds (now w_ok []) = ''2024-05-17T09:30:00.123''"
    by (simp add: world_defs format_defs)
  have h: "hex [0xAA, 0xBB] = ''aabb''"
    by (simp add: hex_def hex_byte_def digit_char_numerals)
  have x: "format_x 27 = ''1b''"
    by (simp add: format_x_def hex_nat.simps digit_char_numerals)
  have m: "microsecond (now w_ok []) div 1000 = 123"
    by (simp add: world_defs)
  have p: "perform w_ok a [] = (Inr (), [(a, None)])" for a
    by (simp add: perform_def world_defs)
  from status_handler_output [of w_ok "\<lparr>handle = 27, uuid = STATUS_CHAR_HANDLE\<rparr>"
      "[0xAA, 0xBB]" "[]"] v
  show ?thesis by (simp add: t h x m p)
qed

text \<open>
  C9: \<^verbatim>\<open>bytes_to_str\<close> gives \<open>N/A\<close> for the empty byte sequence; for a non-empty
  one it gives one character a byte, in order, the character whose code point is the
  value of the byte (so \<open>0xE9\<close> becomes one character, not part of a UTF-8 sequence).
\<close>

theorem bytes_to_str_chars:
  "bytes_to_str [] = ''N/A'' \<and>
   (data \<noteq> [] \<longrightarrow>
      bytes_to_str data = map chr data \<and>
      length (bytes_to_str data) = length data \<and>
      map of_char (bytes_to_str data) = (map unat data :: nat list))"
proof -
  have "concat (map (\<lambda>b. [chr b]) data) = map chr data"
    by (induction data) simp_all
  then show ?thesis
    by (simp add: bytes_to_str_def of_char_chr)
qed

theorem bytes_to_str_chars_witness:
  "bytes_to_str [] = ''N/A'' \<and>
   [0x48, 0xE9] \<noteq> ([] :: byte list) \<and>
   bytes_to_str [0x48, 0xE9] = [CHR 0x48, CHR 0xE9] \<and>
   length (bytes_to_str [0x48, 0xE9]) = 2"
  using bytes_to_str_chars [of "[0x48, 0xE9]"]
  by (simp add: chr_def char_of_eq_iff)

end
